theory Spec2Isabelle
  imports Main "HOL-Library.Sublist"
begin

section \<open>JavaScript values used by the Cloudinary utilities\<close>

text \<open>
  Strings are lists of characters (\<^typ>\<open>string\<close>). Of the four line terminators that
  the regular-expression atom \<^verbatim>\<open>.\<close> refuses, only LF and CR are characters of this
  type. A \<^verbatim>\<open>number\<close> is modelled by an integer (the callers pass 400, 600, 2400),
  rendered in decimal as a template literal renders it; the only falsy number is then 0.
  A thrown \<^verbatim>\<open>new Error(msg)\<close> is the value \<open>Error msg\<close> on the left of a sum.
\<close>

datatype error = Error string

definition startsWith :: "string \<Rightarrow> string \<Rightarrow> bool" where
  "startsWith s p = prefix p s"

definition endsWith :: "string \<Rightarrow> string \<Rightarrow> bool" where
  "endsWith s p = suffix p s"

text \<open>\<^verbatim>\<open>s.includes(t)\<close>: \<open>t\<close> occurs in \<open>s\<close> at some index.\<close>

fun includes_str :: "string \<Rightarrow> string \<Rightarrow> bool" where
  "includes_str [] t = (t = [])"
| "includes_str (c # cs) t = (prefix t (c # cs) \<or> includes_str cs t)"

text \<open>\<^verbatim>\<open>xs.join(sep)\<close>\<close>

fun join :: "string list \<Rightarrow> string \<Rightarrow> string" where
  "join [] sep = []"
| "join [x] sep = x"
| "join (x # y # ys) sep = x @ sep @ join (y # ys) sep"

text \<open>Decimal rendering of an integer, as \<^verbatim>\<open>`${n}`\<close> gives it.\<close>

definition digit :: "nat \<Rightarrow> char" where
  "digit d = char_of (48 + d)"

function show_nat :: "nat \<Rightarrow> string" where
  "show_nat n = (if n < 10 then [digit n] else show_nat (n div 10) @ [digit (n mod 10)])"
  by pat_completeness auto
termination
  by (relation "measure id") auto

declare show_nat.simps [simp del]

definition numberToString :: "int \<Rightarrow> string" where
  "numberToString i = (if i < 0 then CHR ''-'' # show_nat (nat (- i)) else show_nat (nat i))"

text \<open>Truthiness of an optional string: \<^verbatim>\<open>undefined\<close> and \<^verbatim>\<open>""\<close> are falsy.\<close>

definition truthy :: "string option \<Rightarrow> bool" where
  "truthy v = (case v of None \<Rightarrow> False | Some s \<Rightarrow> s \<noteq> [])"


section \<open>Configuration\<close>

text \<open>The three variables read from \<^verbatim>\<open>import.meta.env\<close>.\<close>

record env =
  PUBLIC_CLOUDINARY_CLOUD_NAME :: "string option"
  CLOUDINARY_API_KEY :: "string option"
  CLOUDINARY_API_SECRET :: "string option"

record CloudinaryConfig =
  cloudName :: string
  apiKey :: "string option"
  apiSecret :: "string option"

definition getCloudinaryConfig :: "env \<Rightarrow> CloudinaryConfig option" where
  "getCloudinaryConfig e =
     (if \<not> truthy (PUBLIC_CLOUDINARY_CLOUD_NAME e) then None
      else case PUBLIC_CLOUDINARY_CLOUD_NAME e of
             None \<Rightarrow> None
           | Some cn \<Rightarrow> Some \<lparr>cloudName = cn,
                              apiKey = CLOUDINARY_API_KEY e,
                              apiSecret = CLOUDINARY_API_SECRET e\<rparr>)"

definition isCloudinaryEnabled :: "env \<Rightarrow> bool" where
  "isCloudinaryEnabled e = truthy (PUBLIC_CLOUDINARY_CLOUD_NAME e)"

definition isCloudinaryUrl :: "string \<Rightarrow> bool" where
  "isCloudinaryUrl u = (includes_str u ''cloudinary.com'' \<or> includes_str u ''res.cloudinary.com'')"


section \<open>The URL builder\<close>

datatype format = Format_auto | Format_webp | Format_jpg | Format_png | Format_avif
datatype quality = Quality_auto | Quality_number int
datatype crop = Crop_fill | Crop_fit | Crop_scale | Crop_thumb | Crop_limit
datatype gravity = Gravity_auto | Gravity_face | Gravity_center | Gravity_north
  | Gravity_south | Gravity_east | Gravity_west
datatype fetchFormat = Fetch_auto | Fetch_webp | Fetch_jpg | Fetch_png
datatype loading = Lazy | Eager

record CloudinaryImageOptions =
  width :: "int option"
  height :: "int option"
  format :: "format option"
  quality :: "quality option"
  crop :: "crop option"
  gravity :: "gravity option"
  fetchFormat :: "fetchFormat option"
  loading :: "loading option"

text \<open>The default argument \<^verbatim>\<open>options = {}\<close>: every option absent.\<close>

definition no_options :: CloudinaryImageOptions where
  "no_options = \<lparr>width = None, height = None, format = None, quality = None,
                 crop = None, gravity = None, fetchFormat = None, loading = None\<rparr>"

fun format_string :: "format \<Rightarrow> string" where
  "format_string Format_auto = ''auto''"
| "format_string Format_webp = ''webp''"
| "format_string Format_jpg = ''jpg''"
| "format_string Format_png = ''png''"
| "format_string Format_avif = ''avif''"

fun crop_string :: "crop \<Rightarrow> string" where
  "crop_string Crop_fill = ''fill''"
| "crop_string Crop_fit = ''fit''"
| "crop_string Crop_scale = ''scale''"
| "crop_string Crop_thumb = ''thumb''"
| "crop_string Crop_limit = ''limit''"

fun gravity_string :: "gravity \<Rightarrow> string" where
  "gravity_string Gravity_auto = ''auto''"
| "gravity_string Gravity_face = ''face''"
| "gravity_string Gravity_center = ''center''"
| "gravity_string Gravity_north = ''north''"
| "gravity_string Gravity_south = ''south''"
| "gravity_string Gravity_east = ''east''"
| "gravity_string Gravity_west = ''west''"

text \<open>
  The array \<^verbatim>\<open>transformations\<close> of \<^verbatim>\<open>buildCloudinaryUrl\<close> after its six guarded
  \<^verbatim>\<open>push\<close> statements, in the order of the source. A guard \<^verbatim>\<open>if (options.x)\<close>
  fails on an absent option and on the number 0; every crop, gravity and format value is
  a non-empty string, hence truthy.
\<close>

definition transformations :: "CloudinaryImageOptions \<Rightarrow> string list" where
  "transformations options =
     (let t0 = [];
          t1 = (case width options of
                  Some w \<Rightarrow> if w \<noteq> 0 then t0 @ [''w_'' @ numberToString w] else t0
                | None \<Rightarrow> t0);
          t2 = (case height options of
                  Some h \<Rightarrow> if h \<noteq> 0 then t1 @ [''h_'' @ numberToString h] else t1
                | None \<Rightarrow> t1);
          t3 = (case crop options of
                  Some c \<Rightarrow> t2 @ [''c_'' @ crop_string c]
                | None \<Rightarrow> t2);
          t4 = (case gravity options of
                  Some g \<Rightarrow> t3 @ [''g_'' @ gravity_string g]
                | None \<Rightarrow> t3);
          t5 = (case quality options of
                  Some Quality_auto \<Rightarrow> t4 @ [''q_auto'']
                | Some (Quality_number q) \<Rightarrow>
                    if q \<noteq> 0 then t4 @ [''q_'' @ numberToString q] else t4
                | None \<Rightarrow> t4);
          t6 = (case format options of
                  Some f \<Rightarrow> if f \<noteq> Format_auto then t5 @ [''f_'' @ format_string f] else t5
                | None \<Rightarrow> t5)
      in t6)"

definition not_configured :: error where
  "not_configured = Error ''Cloudinary is not configured''"

definition cleanPublicId :: "string \<Rightarrow> string" where
  "cleanPublicId publicId = (if startsWith publicId ''/'' then drop 1 publicId else publicId)"

definition buildCloudinaryUrl :: "env \<Rightarrow> string \<Rightarrow> CloudinaryImageOptions \<Rightarrow> error + string" where
  "buildCloudinaryUrl e publicId options =
     (case getCloudinaryConfig e of
        None \<Rightarrow> Inl not_configured
      | Some config \<Rightarrow>
          let ts = transformations options;
              transformStr = (if length ts > 0 then join ts '','' @ ''/'' else [])
          in Inr (''https://res.cloudinary.com/'' @ cloudName config @ ''/image/upload/''
                  @ transformStr @ cleanPublicId publicId))"

text \<open>\<^verbatim>\<open>width = 400\<close> is a default parameter: an omitted width is 400.\<close>

definition buildCloudinaryThumbnailUrl :: "env \<Rightarrow> string \<Rightarrow> int option \<Rightarrow> int option \<Rightarrow> error + string" where
  "buildCloudinaryThumbnailUrl e publicId w h =
     buildCloudinaryUrl e publicId
       (no_options\<lparr>width := Some (case w of None \<Rightarrow> 400 | Some v \<Rightarrow> v),
                   height := h,
                   crop := Some Crop_limit,
                   quality := Some Quality_auto,
                   format := Some Format_auto\<rparr>)"

definition buildCloudinaryOriginalUrl :: "env \<Rightarrow> string \<Rightarrow> error + string" where
  "buildCloudinaryOriginalUrl e publicId =
     (case getCloudinaryConfig e of
        None \<Rightarrow> Inl not_configured
      | Some config \<Rightarrow>
          Inr (''https://res.cloudinary.com/'' @ cloudName config @ ''/image/upload/''
               @ cleanPublicId publicId))"

definition buildCloudinaryFullUrl :: "env \<Rightarrow> string \<Rightarrow> int option \<Rightarrow> error + string" where
  "buildCloudinaryFullUrl e publicId maxWidth =
     buildCloudinaryUrl e publicId
       (no_options\<lparr>width := Some (case maxWidth of None \<Rightarrow> 2400 | Some v \<Rightarrow> v),
                   crop := Some Crop_limit,
                   quality := Some Quality_auto\<rparr>)"


section \<open>The path translator\<close>

text \<open>
  The two regular expressions of this module are searched the way the engine searches
  them: the pattern is tried at index 0, 1, 2, ... of the input and the first index at
  which it matches wins. None of them carries the \<^verbatim>\<open>m\<close> flag, so \<^verbatim>\<open>^\<close> is the start
  and \<^verbatim>\<open>$\<close> the end of the input.
\<close>

definition line_terminator :: "char \<Rightarrow> bool" where
  "line_terminator c = (c = CHR 0x0A \<or> c = CHR 0x0D)"

text \<open>
  \<^verbatim>\<open>.+$\<close> at a position: the greedy \<^verbatim>\<open>.+\<close> must reach the end of the input, so it
  matches exactly when the rest is not empty and holds no line terminator.
\<close>

definition dot_plus_end :: "string \<Rightarrow> bool" where
  "dot_plus_end r = (r \<noteq> [] \<and> list_all (\<lambda>c. \<not> line_terminator c) r)"

text \<open>\<^verbatim>\<open>s.replace(/\\/g, "/")\<close>: every backslash becomes a slash.\<close>

definition normalize_separators :: "string \<Rightarrow> string" where
  "normalize_separators s = map (\<lambda>c. if c = CHR 0x5C then CHR ''/'' else c) s"

text \<open>\<^verbatim>\<open>s.replace(/^src\//, "")\<close> and its sibling: a leading \<open>p\<close> is removed once.\<close>

definition strip_prefix :: "string \<Rightarrow> string \<Rightarrow> string" where
  "strip_prefix p s = (if prefix p s then drop (length p) s else s)"

text \<open>
  \<^verbatim>\<open>(galleries\/.+)$\<close> at a position; the result is the text of group 1.
\<close>

definition galleries_group :: "string \<Rightarrow> string option" where
  "galleries_group t =
     (if prefix ''galleries/'' t \<and> dot_plus_end (drop 10 t) then Some t else None)"

text \<open>
  The search for \<^verbatim>\<open>/(?:^|\/)(galleries\/.+)$/\<close>. The flag says whether the
  current position is index 0, where the alternative \<^verbatim>\<open>^\<close> is tried before
  \<^verbatim>\<open>\/\<close>.
\<close>

fun galleries_search :: "bool \<Rightarrow> string \<Rightarrow> string option" where
  "galleries_search at_start [] = None"
| "galleries_search at_start (c # cs) =
     (case (if at_start then galleries_group (c # cs) else None) of
        Some g \<Rightarrow> Some g
      | None \<Rightarrow>
          (case (if c = CHR ''/'' then galleries_group cs else None) of
             Some g \<Rightarrow> Some g
           | None \<Rightarrow> galleries_search False cs))"

definition localPathToCloudinaryPublicId :: "string \<Rightarrow> string" where
  "localPathToCloudinaryPublicId localPath =
     (let publicId = normalize_separators localPath
      in case galleries_search True publicId of
           Some g \<Rightarrow> g
         | None \<Rightarrow>
             let publicId = strip_prefix ''content/'' (strip_prefix ''src/'' publicId)
             in if \<not> startsWith publicId ''galleries/'' then ''galleries/'' @ publicId
                else publicId)"


section \<open>Extracting the public ID from a URL\<close>

text \<open>
  One iteration of \<^verbatim>\<open>(?:[^/]+\/)\<close> at a position: a non-empty run of characters
  other than \<open>/\<close>, then a \<open>/\<close>; the result is the rest of the input. Giving back
  characters of the run cannot help, since the next character would not be \<open>/\<close>.
\<close>

definition segment :: "string \<Rightarrow> string option" where
  "segment t =
     (let run = takeWhile (\<lambda>c. c \<noteq> CHR ''/'') t;
          r = dropWhile (\<lambda>c. c \<noteq> CHR ''/'') t
      in if run \<noteq> [] \<and> r \<noteq> [] then Some (tl r) else None)"

text \<open>
  \<^verbatim>\<open>(?:[^/]+\/)*(.+)$\<close> at a position. The star is greedy: one more iteration is
  tried first, and only when the rest of the pattern fails after it does the engine
  fall back to \<^verbatim>\<open>(.+)$\<close> here. The result is the text of group 1.
\<close>

function segments_then_group :: "string \<Rightarrow> string option" where
  "segments_then_group t =
     (case segment t of
        Some r \<Rightarrow>
          (case segments_then_group r of
             Some g \<Rightarrow> Some g
           | None \<Rightarrow> if dot_plus_end t then Some t else None)
      | None \<Rightarrow> if dot_plus_end t then Some t else None)"
  by pat_completeness auto
termination
proof (relation "measure length")
  show "wf (measure length)"
    by simp
next
  fix t r :: string
  assume a: "segment t = Some r"
  let ?d = "dropWhile (\<lambda>c. c \<noteq> CHR ''/'') t"
  from a have d: "?d \<noteq> []" and r: "r = tl ?d"
    by (auto simp: segment_def Let_def split: if_splits)
  have "length ?d \<le> length t"
    by (rule length_dropWhile_le)
  moreover from d have "length (tl ?d) < length ?d"
    by (cases ?d) auto
  ultimately show "(r, t) \<in> measure length"
    using r by simp
qed

declare segments_then_group.simps [simp del]

text \<open>The search for \<^verbatim>\<open>/\/upload\/(?:[^/]+\/)*(.+)$/\<close>.\<close>

fun upload_search :: "string \<Rightarrow> string option" where
  "upload_search [] = None"
| "upload_search (c # cs) =
     (case (if prefix ''/upload/'' (c # cs) then segments_then_group (drop 8 (c # cs))
            else None) of
        Some g \<Rightarrow> Some g
      | None \<Rightarrow> upload_search cs)"

definition getPublicIdFromCloudinaryUrl :: "string \<Rightarrow> string option" where
  "getPublicIdFromCloudinaryUrl url = upload_search url"


section \<open>The inventory client\<close>

text \<open>
  What the module takes from its host: \<^verbatim>\<open>fetch\<close> (the remote answer to a request, or
  the error it rejects with), \<^verbatim>\<open>encodeURIComponent\<close>, the base64 encoding of
  \<^verbatim>\<open>Buffer\<close> and \<^verbatim>\<open>String.prototype.localeCompare\<close>. They are parameters of the
  model. The effects of a call are returned as the list of events it caused, in order.
\<close>

record resource =
  public_id :: string
  width_px :: int
  height_px :: int
  format_name :: string
  bytes :: int
  url :: string
  secure_url :: string

record request =
  request_url :: string
  authorization :: string

text \<open>
  A response: \<^verbatim>\<open>ok\<close>, \<^verbatim>\<open>status\<close>, the outcome of \<^verbatim>\<open>text()\<close> and the outcome of
  \<^verbatim>\<open>json()\<close>, of which only the field \<^verbatim>\<open>resources\<close> is read (\<open>None\<close> when it is
  missing).
\<close>

record response =
  ok :: bool
  status :: int
  body_text :: "error + string"
  body_json :: "error + resource list option"

datatype fetch_outcome = Rejected error | Responded response

record platform =
  fetch :: "request \<Rightarrow> fetch_outcome"
  encodeURIComponent :: "string \<Rightarrow> string"
  base64 :: "string \<Rightarrow> string"
  localeCompare :: "string \<Rightarrow> string \<Rightarrow> int"

datatype event = Fetch request | Console_warn string | Console_error error

definition credentials_required :: error where
  "credentials_required = Error (''Cloudinary API credentials are required to list images. ''
     @ ''Please set CLOUDINARY_API_KEY and CLOUDINARY_API_SECRET.'')"

text \<open>The body of the \<^verbatim>\<open>try\<close> block; the \<^verbatim>\<open>catch\<close> logs the error and rethrows it.\<close>

definition list_request :: "platform \<Rightarrow> string \<Rightarrow> string \<Rightarrow> string \<Rightarrow> string \<Rightarrow> request" where
  "list_request pf cn key secret pfx =
     \<lparr>request_url = ''https://api.cloudinary.com/v1_1/'' @ cn
         @ ''/resources/image/upload?prefix='' @ encodeURIComponent pf pfx
         @ ''&max_results=500'',
      authorization = ''Basic '' @ base64 pf (key @ '':'' @ secret)\<rparr>"

definition rethrow :: "request \<Rightarrow> error \<Rightarrow> (error + resource list) \<times> event list" where
  "rethrow req err = (Inl err, [Fetch req, Console_error err])"

definition listCloudinaryImages ::
  "platform \<Rightarrow> env \<Rightarrow> string \<Rightarrow> (error + resource list) \<times> event list" where
  "listCloudinaryImages pf e folderPath =
     (case getCloudinaryConfig e of
        None \<Rightarrow> (Inl credentials_required, [])
      | Some config \<Rightarrow>
          (case (apiKey config, apiSecret config) of
             (Some key, Some secret) \<Rightarrow>
               if key = [] \<or> secret = [] then (Inl credentials_required, [])
               else
                 let pfx = (if endsWith folderPath ''/'' then folderPath
                            else folderPath @ ''/'');
                     req = list_request pf (cloudName config) key secret pfx
                 in (case fetch pf req of
                       Rejected err \<Rightarrow> rethrow req err
                     | Responded resp \<Rightarrow>
                         if \<not> ok resp then
                           (case body_text resp of
                              Inl err \<Rightarrow> rethrow req err
                            | Inr errorText \<Rightarrow>
                                rethrow req
                                  (Error (''Failed to list Cloudinary images: ''
                                     @ numberToString (status resp) @ '' '' @ errorText)))
                         else
                           (case body_json resp of
                              Inl err \<Rightarrow> rethrow req err
                            | Inr data \<Rightarrow>
                                let resources = (case data of None \<Rightarrow> [] | Some rs \<Rightarrow> rs)
                                in (Inr resources,
                                    Fetch req #
                                    (if length resources = 0
                                     then [Console_warn (''No images found with prefix '' @ [CHR 0x22] @ pfx
                                        @ [CHR 0x22] @ ''. This might indicate images were uploaded manually ''
                                        @ ''without folder structure in public_id.'')]
                                     else []))))
           | _ \<Rightarrow> (Inl credentials_required, [])))"


section \<open>The metadata resolver\<close>

text \<open>
  \<^verbatim>\<open>xs.sort(compareFn)\<close>: the sort is stable, so for a comparator that is a total
  preorder its result is the stable ascending arrangement, which insertion from the
  right computes.
\<close>

fun insert_by :: "('a \<Rightarrow> 'a \<Rightarrow> int) \<Rightarrow> 'a \<Rightarrow> 'a list \<Rightarrow> 'a list" where
  "insert_by compareFn x [] = [x]"
| "insert_by compareFn x (y # ys) =
     (if compareFn x y \<le> 0 then x # y # ys else y # insert_by compareFn x ys)"

definition sort_by :: "('a \<Rightarrow> 'a \<Rightarrow> int) \<Rightarrow> 'a list \<Rightarrow> 'a list" where
  "sort_by compareFn xs = foldr (insert_by compareFn) xs []"

text \<open>An entry of the content collection; \<^verbatim>\<open>published\<close> is the time value of the date.\<close>

record entry_data =
  data_title :: string
  data_published :: int
  data_description :: "string option"
  data_image :: "string option"
  data_tags :: "string list option"
  data_location :: "string option"

record entry =
  entry_id :: string
  data :: entry_data

record GalleryInfo =
  slug :: string
  name :: string
  title :: string
  imageCount :: nat
  published :: int
  description :: string
  image_url :: string
  tags :: "string list"
  location :: string

text \<open>\<^verbatim>\<open>entry.id.replace(/\/index$/, "")\<close>\<close>

definition strip_index :: "string \<Rightarrow> string" where
  "strip_index s = (if suffix ''/index'' s then take (length s - 6) s else s)"

text \<open>\<^verbatim>\<open>v || ""\<close> on an optional string.\<close>

definition or_empty :: "string option \<Rightarrow> string" where
  "or_empty v = (case v of None \<Rightarrow> [] | Some s \<Rightarrow> s)"

text \<open>
  Reading \<^verbatim>\<open>public_id\<close> of \<^verbatim>\<open>cloudinaryImages[0]\<close> when there is no such element
  throws a \<^verbatim>\<open>TypeError\<close>.
\<close>

definition firstImageUrl_of :: "platform \<Rightarrow> env \<Rightarrow> resource list \<Rightarrow> error + string" where
  "firstImageUrl_of pf e cloudinaryImages =
     (if length cloudinaryImages > 0 then
        (case sort_by (\<lambda>a b. localeCompare pf (public_id a) (public_id b)) cloudinaryImages of
           r # _ \<Rightarrow> buildCloudinaryThumbnailUrl e (public_id r) (Some 600) (Some 400)
         | [] \<Rightarrow> Inl (Error ''TypeError''))
      else Inr [])"

definition finalImagePath_of :: "env \<Rightarrow> string \<Rightarrow> string \<Rightarrow> string \<Rightarrow> error + string" where
  "finalImagePath_of e gallery_slug declared firstImageUrl =
     (if declared \<noteq> [] \<and> \<not> startsWith declared ''http'' then
        buildCloudinaryThumbnailUrl e
          (localPathToCloudinaryPublicId (''galleries/'' @ gallery_slug @ ''/'' @ declared))
          (Some 600) (Some 400)
      else if declared = [] then Inr firstImageUrl
      else Inr declared)"

text \<open>The asynchronous callback that \<^verbatim>\<open>getGalleries\<close> maps over the entries.\<close>

definition galleryPromise :: "platform \<Rightarrow> env \<Rightarrow> entry \<Rightarrow> (error + GalleryInfo) \<times> event list" where
  "galleryPromise pf e entry =
     (let gallery_slug = strip_index (entry_id entry);
          folderPath = ''galleries/'' @ gallery_slug;
          listed = listCloudinaryImages pf e folderPath
      in case fst listed of
           Inl err \<Rightarrow> (Inl err, snd listed)
         | Inr cloudinaryImages \<Rightarrow>
             (case firstImageUrl_of pf e cloudinaryImages of
                Inl err \<Rightarrow> (Inl err, snd listed)
              | Inr firstImageUrl \<Rightarrow>
                  (case finalImagePath_of e gallery_slug (or_empty (data_image (data entry)))
                          firstImageUrl of
                     Inl err \<Rightarrow> (Inl err, snd listed)
                   | Inr finalImagePath \<Rightarrow>
                       (Inr \<lparr>slug = gallery_slug,
                             name = gallery_slug,
                             title = data_title (data entry),
                             imageCount = length cloudinaryImages,
                             published = data_published (data entry),
                             description = or_empty (data_description (data entry)),
                             image_url = finalImagePath,
                             tags = (case data_tags (data entry) of None \<Rightarrow> [] | Some ts \<Rightarrow> ts),
                             location = or_empty (data_location (data entry))\<rparr>,
                        snd listed))))"

text \<open>\<^verbatim>\<open>Promise.all\<close>: all the values, or a rejection (here the first in list order).\<close>

fun promise_all :: "(error + 'a) list \<Rightarrow> error + 'a list" where
  "promise_all [] = Inr []"
| "promise_all (Inl err # ps) = Inl err"
| "promise_all (Inr v # ps) = (case promise_all ps of Inl err \<Rightarrow> Inl err | Inr vs \<Rightarrow> Inr (v # vs))"

definition getGalleries :: "platform \<Rightarrow> env \<Rightarrow> entry list \<Rightarrow> error + GalleryInfo list" where
  "getGalleries pf e galleryEntries =
     (case promise_all (map (\<lambda>entry. fst (galleryPromise pf e entry)) galleryEntries) of
        Inl err \<Rightarrow> Inl err
      | Inr results \<Rightarrow> Inr (sort_by (\<lambda>a b. published b - published a) results))"


section \<open>Concrete inputs\<close>

text \<open>Comparison of strings by code unit, one possible \<^verbatim>\<open>localeCompare\<close>.\<close>

fun code_unit_compare :: "string \<Rightarrow> string \<Rightarrow> int" where
  "code_unit_compare [] [] = 0"
| "code_unit_compare [] (y # ys) = - 1"
| "code_unit_compare (x # xs) [] = 1"
| "code_unit_compare (x # xs) (y # ys) =
     (if (of_char x :: nat) < of_char y then - 1
      else if (of_char y :: nat) < of_char x then 1
      else code_unit_compare xs ys)"

definition demo_env :: env where
  "demo_env = \<lparr>PUBLIC_CLOUDINARY_CLOUD_NAME = Some ''demo'',
               CLOUDINARY_API_KEY = Some ''key'',
               CLOUDINARY_API_SECRET = Some ''secret''\<rparr>"

definition demo_config :: CloudinaryConfig where
  "demo_config = \<lparr>cloudName = ''demo'', apiKey = Some ''key'', apiSecret = Some ''secret''\<rparr>"

text \<open>The options that \<^verbatim>\<open>buildCloudinaryThumbnailUrl(id, 600, 400)\<close> passes on.\<close>

definition thumbnail_spec :: CloudinaryImageOptions where
  "thumbnail_spec = no_options\<lparr>width := Some 600, height := Some 400, crop := Some Crop_limit,
     quality := Some Quality_auto, format := Some Format_auto\<rparr>"

definition no_cloud_name_env :: env where
  "no_cloud_name_env = \<lparr>PUBLIC_CLOUDINARY_CLOUD_NAME = None,
               CLOUDINARY_API_KEY = Some ''key'',
               CLOUDINARY_API_SECRET = Some ''secret''\<rparr>"

definition no_credentials_env :: env where
  "no_credentials_env = \<lparr>PUBLIC_CLOUDINARY_CLOUD_NAME = Some ''demo'',
               CLOUDINARY_API_KEY = None,
               CLOUDINARY_API_SECRET = None\<rparr>"

definition image_record :: "string \<Rightarrow> resource" where
  "image_record pid = \<lparr>public_id = pid, width_px = 4000, height_px = 3000,
     format_name = ''jpg'', bytes = 1000000, url = [], secure_url = []\<rparr>"

definition trip_inventory :: "resource list" where
  "trip_inventory = [image_record ''galleries/trip/b.jpg'', image_record ''galleries/trip/a.jpg'']"

definition trip_response :: "request \<Rightarrow> fetch_outcome" where
  "trip_response req =
     Responded \<lparr>ok = True, status = 200, body_text = Inr [],
                body_json = Inr (Some trip_inventory)\<rparr>"

definition demo_platform :: platform where
  "demo_platform = \<lparr>fetch = trip_response, encodeURIComponent = id, base64 = id,
                     localeCompare = code_unit_compare\<rparr>"

definition trip_entry :: "string option \<Rightarrow> entry" where
  "trip_entry img = \<lparr>entry_id = ''trip/index'',
     data = \<lparr>data_title = ''Trip'', data_published = 0, data_description = Some [],
             data_image = img, data_tags = Some [], data_location = Some []\<rparr>\<rparr>"

text \<open>
  A comparison in the manner of the locale-sensitive collation that runtimes implement
  for \<^verbatim>\<open>localeCompare\<close>: strings are first compared with the case of the letters
  A to Z set aside, and only between strings equal in that way does lower case come before
  upper case. So \<^verbatim>\<open>a.jpg\<close> comes before \<^verbatim>\<open>B.jpg\<close>, which by code unit comes first.
\<close>

definition to_lower :: "char \<Rightarrow> char" where
  "to_lower c =
     (let n = (of_char c :: nat) in if 65 \<le> n \<and> n \<le> 90 then char_of (n + 32) else c)"

definition collation_compare :: "string \<Rightarrow> string \<Rightarrow> int" where
  "collation_compare a b =
     (let primary = code_unit_compare (map to_lower a) (map to_lower b)
      in if primary \<noteq> 0 then primary else - code_unit_compare a b)"

text \<open>A host with that comparison whose inventory request is answered with the given records.\<close>

definition collation_platform :: "resource list \<Rightarrow> platform" where
  "collation_platform inventory =
     \<lparr>fetch = (\<lambda>req. Responded \<lparr>ok = True, status = 200, body_text = Inr [],
                                   body_json = Inr (Some inventory)\<rparr>),
      encodeURIComponent = id, base64 = id, localeCompare = collation_compare\<rparr>"

definition case_inventory :: "resource list" where
  "case_inventory = [image_record ''galleries/trip/a.jpg'', image_record ''galleries/trip/B.jpg'']"

text \<open>
  The identifier that is lexicographically smallest, read as the order of the code units:
  the first identifier of the listing sorted ascending by \<open>code_unit_compare\<close>.
\<close>

definition lexicographically_first :: "resource list \<Rightarrow> string" where
  "lexicographically_first rs =
     (case sort_by (\<lambda>a b. code_unit_compare (public_id a) (public_id b)) rs of
        r # _ \<Rightarrow> public_id r
      | [] \<Rightarrow> [])"



section \<open>The tokens of the transformation segment\<close>

text \<open>
  The token of each option as the interface describes it: \<^verbatim>\<open>w_<width>\<close>,
  \<^verbatim>\<open>h_<height>\<close>, \<^verbatim>\<open>c_<crop>\<close>, \<^verbatim>\<open>g_<gravity>\<close>, \<^verbatim>\<open>q_<quality|auto>\<close> and
  \<^verbatim>\<open>f_<format>\<close>; an option that is absent or 0, and the format \<^verbatim>\<open>auto\<close>, has none.
\<close>

definition width_token :: "CloudinaryImageOptions \<Rightarrow> string option" where
  "width_token options =
     (case width options of None \<Rightarrow> None
      | Some w \<Rightarrow> if w = 0 then None else Some (''w_'' @ numberToString w))"

definition height_token :: "CloudinaryImageOptions \<Rightarrow> string option" where
  "height_token options =
     (case height options of None \<Rightarrow> None
      | Some h \<Rightarrow> if h = 0 then None else Some (''h_'' @ numberToString h))"

definition crop_token :: "CloudinaryImageOptions \<Rightarrow> string option" where
  "crop_token options = map_option (\<lambda>c. ''c_'' @ crop_string c) (crop options)"

definition gravity_token :: "CloudinaryImageOptions \<Rightarrow> string option" where
  "gravity_token options = map_option (\<lambda>g. ''g_'' @ gravity_string g) (gravity options)"

definition quality_token :: "CloudinaryImageOptions \<Rightarrow> string option" where
  "quality_token options =
     (case quality options of None \<Rightarrow> None
      | Some Quality_auto \<Rightarrow> Some ''q_auto''
      | Some (Quality_number q) \<Rightarrow> if q = 0 then None else Some (''q_'' @ numberToString q))"

definition format_token :: "CloudinaryImageOptions \<Rightarrow> string option" where
  "format_token options =
     (case format options of None \<Rightarrow> None
      | Some f \<Rightarrow> if f = Format_auto then None else Some (''f_'' @ format_string f))"

text \<open>The number of options that have a token.\<close>

definition contributing_count :: "CloudinaryImageOptions \<Rightarrow> nat" where
  "contributing_count options =
     (if width_token options = None then 0 else 1)
   + (if height_token options = None then 0 else 1)
   + (if crop_token options = None then 0 else 1)
   + (if gravity_token options = None then 0 else 1)
   + (if quality_token options = None then 0 else 1)
   + (if format_token options = None then 0 else 1)"

text \<open>
  The reading of the transform invariant in which every option that is present in the
  spec counts, whatever its value: the number of the six options that are supplied.
\<close>

definition spec_present_count :: "CloudinaryImageOptions \<Rightarrow> nat" where
  "spec_present_count options =
     (if width options = None then 0 else 1)
   + (if height options = None then 0 else 1)
   + (if crop options = None then 0 else 1)
   + (if gravity options = None then 0 else 1)
   + (if quality options = None then 0 else 1)
   + (if format options = None then 0 else 1)"

definition opt_list :: "'a option \<Rightarrow> 'a list" where
  "opt_list v = (case v of None \<Rightarrow> [] | Some x \<Rightarrow> [x])"


section \<open>Decimal rendering\<close>

lemma show_nat_nonempty: "show_nat n \<noteq> []"
  by (subst show_nat.simps) simp

lemma digit_zero:
  assumes "d < 10"
  shows "digit d = CHR ''0'' \<longleftrightarrow> d = 0"
proof
  assume "digit d = CHR ''0''"
  then have "of_char (digit d) = (of_char (CHR ''0'') :: nat)"
    by simp
  moreover have "of_char (digit d) = (48 + d :: nat)"
    using assms by (simp add: digit_def)
  ultimately show "d = 0"
    by simp
next
  assume "d = 0"
  have "(of_char (char_of (48::nat)) :: nat) = of_char (CHR ''0'')"
    by simp
  then have "char_of (48::nat) = CHR ''0''"
    by (simp only: of_char_eq_iff)
  with \<open>d = 0\<close> show "digit d = CHR ''0''"
    by (simp add: digit_def)
qed

lemma show_nat_zero: "show_nat n = ''0'' \<longleftrightarrow> n = 0"
proof (cases "n < 10")
  case True
  then show ?thesis
    by (subst show_nat.simps) (simp add: digit_zero)
next
  case False
  have "length (show_nat n) \<ge> 2"
  proof -
    have "show_nat n = show_nat (n div 10) @ [digit (n mod 10)]"
      using False by (subst show_nat.simps) simp
    moreover have "length (show_nat (n div 10)) \<ge> 1"
      using show_nat_nonempty [of "n div 10"] by (cases "show_nat (n div 10)") auto
    ultimately show ?thesis by simp
  qed
  with False show ?thesis by auto
qed

lemma numberToString_zero: "numberToString i = ''0'' \<longleftrightarrow> i = 0"
  by (auto simp: numberToString_def show_nat_zero)


section \<open>Properties of the URL builder\<close>

lemma push_width:
  "(case width options of Some w \<Rightarrow> if w \<noteq> 0 then t @ [''w_'' @ numberToString w] else t
    | None \<Rightarrow> t) = t @ opt_list (width_token options)"
  by (simp add: width_token_def opt_list_def split: option.splits)

lemma push_height:
  "(case height options of Some h \<Rightarrow> if h \<noteq> 0 then t @ [''h_'' @ numberToString h] else t
    | None \<Rightarrow> t) = t @ opt_list (height_token options)"
  by (simp add: height_token_def opt_list_def split: option.splits)

lemma push_crop:
  "(case crop options of Some c \<Rightarrow> t @ [''c_'' @ crop_string c] | None \<Rightarrow> t)
     = t @ opt_list (crop_token options)"
  by (simp add: crop_token_def opt_list_def split: option.splits)

lemma push_gravity:
  "(case gravity options of Some g \<Rightarrow> t @ [''g_'' @ gravity_string g] | None \<Rightarrow> t)
     = t @ opt_list (gravity_token options)"
  by (simp add: gravity_token_def opt_list_def split: option.splits)

lemma push_quality:
  "(case quality options of
      Some Quality_auto \<Rightarrow> t @ [''q_auto'']
    | Some (Quality_number q) \<Rightarrow> if q \<noteq> 0 then t @ [''q_'' @ numberToString q] else t
    | None \<Rightarrow> t) = t @ opt_list (quality_token options)"
  by (simp add: quality_token_def opt_list_def split: option.splits quality.splits)

lemma push_format:
  "(case format options of
      Some f \<Rightarrow> if f \<noteq> Format_auto then t @ [''f_'' @ format_string f] else t
    | None \<Rightarrow> t) = t @ opt_list (format_token options)"
  by (simp add: format_token_def opt_list_def split: option.splits)

lemma transformations_append:
  "transformations options =
     opt_list (width_token options) @ opt_list (height_token options)
     @ opt_list (crop_token options) @ opt_list (gravity_token options)
     @ opt_list (quality_token options) @ opt_list (format_token options)"
  unfolding transformations_def Let_def push_width push_height push_crop push_gravity
    push_quality push_format
  by simp

lemma map_filter_Cons: "List.map_filter f (x # xs) = opt_list (f x) @ List.map_filter f xs"
  by (simp add: List.map_filter_def opt_list_def split: option.splits)

lemma transformations_tokens:
  "transformations options =
     List.map_filter (\<lambda>token. token options)
       [width_token, height_token, crop_token, gravity_token, quality_token, format_token]"
  by (simp only: transformations_append map_filter_Cons List.map_filter_simps append_Nil2)

lemma token_mem:
  "t \<in> set (transformations options) \<longleftrightarrow>
     width_token options = Some t \<or> height_token options = Some t \<or> crop_token options = Some t
     \<or> gravity_token options = Some t \<or> quality_token options = Some t
     \<or> format_token options = Some t"
  unfolding transformations_append by (auto simp: opt_list_def split: option.splits)

lemma numberToString_zero': "''0'' = numberToString i \<longleftrightarrow> i = 0"
  using numberToString_zero [of i] by metis

lemma no_w0: "width_token options \<noteq> Some ''w_0''"
  by (auto simp: width_token_def numberToString_zero numberToString_zero' split: option.splits)
lemma no_h0: "height_token options \<noteq> Some ''h_0''"
  by (auto simp: height_token_def numberToString_zero numberToString_zero' split: option.splits)
lemma no_q0: "quality_token options \<noteq> Some ''q_0''"
  by (auto simp: quality_token_def numberToString_zero numberToString_zero' split: option.splits quality.splits)

lemma width_token_prefix: "width_token options = Some t \<Longrightarrow> prefix ''w_'' t"
  by (auto simp: width_token_def split: option.splits if_splits)
lemma height_token_prefix: "height_token options = Some t \<Longrightarrow> prefix ''h_'' t"
  by (auto simp: height_token_def split: option.splits if_splits)
lemma crop_token_prefix: "crop_token options = Some t \<Longrightarrow> prefix ''c_'' t"
  by (auto simp: crop_token_def)
lemma gravity_token_prefix: "gravity_token options = Some t \<Longrightarrow> prefix ''g_'' t"
  by (auto simp: gravity_token_def)
lemma quality_token_prefix: "quality_token options = Some t \<Longrightarrow> prefix ''q_'' t"
  by (auto simp: quality_token_def split: option.splits if_splits quality.splits)
lemma format_token_prefix: "format_token options = Some t \<Longrightarrow> prefix ''f_'' t"
  by (auto simp: format_token_def split: option.splits if_splits)

lemma length_opt_list: "length (opt_list v) = (if v = None then 0 else 1)"
  by (cases v) (simp_all add: opt_list_def)

text \<open>
  C3, as amended. Every option that is present with a truthy value contributes exactly
  one token to the transformation segment, except the format \<^verbatim>\<open>auto\<close>, which like an
  absent option or a 0 contributes none; the tokens stand in the fixed order width,
  height, crop, gravity, quality, format, and the segment of the URL is these tokens
  joined by commas (no segment at all when there is no token).
\<close>

theorem transformations_fixed_order:
  "transformations options =
     List.map_filter (\<lambda>token. token options)
       [width_token, height_token, crop_token, gravity_token, quality_token, format_token]
   \<and> length (transformations options) = contributing_count options
   \<and> (getCloudinaryConfig e = Some config \<longrightarrow>
        buildCloudinaryUrl e publicId options
          = Inr (''https://res.cloudinary.com/'' @ cloudName config @ ''/image/upload/''
                 @ (if transformations options = [] then []
                    else join (transformations options) '','' @ ''/'')
                 @ cleanPublicId publicId))"
proof -
  have "length (transformations options) = contributing_count options"
    unfolding transformations_append contributing_count_def
    by (simp only: length_append length_opt_list)
  moreover have "buildCloudinaryUrl e publicId options
      = Inr (''https://res.cloudinary.com/'' @ cloudName config @ ''/image/upload/''
             @ (if transformations options = [] then []
                else join (transformations options) '','' @ ''/'')
             @ cleanPublicId publicId)"
    if "getCloudinaryConfig e = Some config"
    using that by (simp add: buildCloudinaryUrl_def Let_def)
  ultimately show ?thesis
    using transformations_tokens [of options] by simp
qed

theorem transformations_fixed_order_witness:
  "getCloudinaryConfig demo_env = Some demo_config
   \<and> transformations thumbnail_spec = [''w_600'', ''h_400'', ''c_limit'', ''q_auto'']
   \<and> contributing_count thumbnail_spec = 4
   \<and> buildCloudinaryUrl demo_env ''galleries/trip/a.jpg'' thumbnail_spec
       = Inr ''https://res.cloudinary.com/demo/image/upload/w_600,h_400,c_limit,q_auto/galleries/trip/a.jpg''"
proof -
  have c: "getCloudinaryConfig demo_env = Some demo_config"
    by (simp add: getCloudinaryConfig_def demo_env_def demo_config_def truthy_def)
  have t: "transformations thumbnail_spec = [''w_600'', ''h_400'', ''c_limit'', ''q_auto'']"
    by code_simp
  have n: "contributing_count thumbnail_spec = 4"
    by code_simp
  have i: "cleanPublicId ''galleries/trip/a.jpg'' = ''galleries/trip/a.jpg''"
    by code_simp
  from transformations_fixed_order
    [of thumbnail_spec demo_env demo_config "''galleries/trip/a.jpg''"] c t n i
  show ?thesis
    by (simp add: demo_config_def)
qed

text \<open>
  C3, as stated, fails: a format option present with value \<^verbatim>\<open>auto\<close> contributes no
  token, so the number of tokens is not the number of options present.
\<close>

theorem format_auto_contributes_no_token:
  "length (transformations (no_options\<lparr>format := Some Format_auto\<rparr>))
     \<noteq> spec_present_count (no_options\<lparr>format := Some Format_auto\<rparr>)"
  by (simp add: transformations_def spec_present_count_def no_options_def)

text \<open>
  C6. Building a URL with the empty transform spec gives what the original-URL builder
  gives, for every identifier; with the configuration loaded both return a URL.
\<close>

theorem buildCloudinaryUrl_no_options_is_original:
  "buildCloudinaryUrl e publicId no_options = buildCloudinaryOriginalUrl e publicId
   \<and> (isCloudinaryEnabled e \<longrightarrow> (\<exists>u. buildCloudinaryOriginalUrl e publicId = Inr u))"
  by (auto simp: buildCloudinaryUrl_def buildCloudinaryOriginalUrl_def transformations_def
      no_options_def isCloudinaryEnabled_def getCloudinaryConfig_def truthy_def
      split: option.splits)

theorem buildCloudinaryUrl_no_options_is_original_witness:
  "isCloudinaryEnabled demo_env
   \<and> buildCloudinaryUrl demo_env ''/galleries/trip/a.jpg'' no_options
       = buildCloudinaryOriginalUrl demo_env ''/galleries/trip/a.jpg''
   \<and> buildCloudinaryOriginalUrl demo_env ''/galleries/trip/a.jpg''
       = Inr ''https://res.cloudinary.com/demo/image/upload/galleries/trip/a.jpg''"
  using buildCloudinaryUrl_no_options_is_original [of demo_env "''/galleries/trip/a.jpg''"]
  by (simp add: buildCloudinaryOriginalUrl_def isCloudinaryEnabled_def getCloudinaryConfig_def
      demo_env_def truthy_def cleanPublicId_def startsWith_def)

text \<open>
  C9. A width, height or quality of 0 is treated as an absent option: the URL is the one
  built with the option omitted, and no token \<^verbatim>\<open>w_0\<close>, \<^verbatim>\<open>h_0\<close> or \<^verbatim>\<open>q_0\<close> is ever
  emitted.
\<close>

theorem falsy_option_same_as_absent:
  "buildCloudinaryUrl e publicId (options\<lparr>width := Some 0\<rparr>)
     = buildCloudinaryUrl e publicId (options\<lparr>width := None\<rparr>)
   \<and> buildCloudinaryUrl e publicId (options\<lparr>height := Some 0\<rparr>)
     = buildCloudinaryUrl e publicId (options\<lparr>height := None\<rparr>)
   \<and> buildCloudinaryUrl e publicId (options\<lparr>quality := Some (Quality_number 0)\<rparr>)
     = buildCloudinaryUrl e publicId (options\<lparr>quality := None\<rparr>)
   \<and> ''w_0'' \<notin> set (transformations options)
   \<and> ''h_0'' \<notin> set (transformations options)
   \<and> ''q_0'' \<notin> set (transformations options)"
proof -
  have w: "transformations (options\<lparr>width := Some 0\<rparr>) = transformations (options\<lparr>width := None\<rparr>)"
    by (simp add: transformations_def)
  have h: "transformations (options\<lparr>height := Some 0\<rparr>) = transformations (options\<lparr>height := None\<rparr>)"
    by (simp add: transformations_def)
  have q: "transformations (options\<lparr>quality := Some (Quality_number 0)\<rparr>)
      = transformations (options\<lparr>quality := None\<rparr>)"
    by (simp add: transformations_def)
  have n: "''w_0'' \<notin> set (transformations options)" "''h_0'' \<notin> set (transformations options)"
     "''q_0'' \<notin> set (transformations options)"
    using no_w0 [of options] no_h0 [of options] no_q0 [of options]
      width_token_prefix [of options "''h_0''"] width_token_prefix [of options "''q_0''"]
      height_token_prefix [of options "''w_0''"] height_token_prefix [of options "''q_0''"]
      crop_token_prefix [of options "''w_0''"] crop_token_prefix [of options "''h_0''"]
      crop_token_prefix [of options "''q_0''"]
      gravity_token_prefix [of options "''w_0''"] gravity_token_prefix [of options "''h_0''"]
      gravity_token_prefix [of options "''q_0''"]
      quality_token_prefix [of options "''w_0''"] quality_token_prefix [of options "''h_0''"]
      format_token_prefix [of options "''w_0''"] format_token_prefix [of options "''h_0''"]
      format_token_prefix [of options "''q_0''"]
    by (simp_all add: token_mem) blast+
  have "buildCloudinaryUrl e publicId (options\<lparr>width := Some 0\<rparr>)
      = buildCloudinaryUrl e publicId (options\<lparr>width := None\<rparr>)"
    by (simp only: buildCloudinaryUrl_def w)
  moreover have "buildCloudinaryUrl e publicId (options\<lparr>height := Some 0\<rparr>)
      = buildCloudinaryUrl e publicId (options\<lparr>height := None\<rparr>)"
    by (simp only: buildCloudinaryUrl_def h)
  moreover have "buildCloudinaryUrl e publicId (options\<lparr>quality := Some (Quality_number 0)\<rparr>)
      = buildCloudinaryUrl e publicId (options\<lparr>quality := None\<rparr>)"
    by (simp only: buildCloudinaryUrl_def q)
  ultimately show ?thesis
    using n by blast
qed


section \<open>Properties of the inventory client\<close>

lemma listCloudinaryImages_no_config:
  "getCloudinaryConfig e = None \<Longrightarrow>
   listCloudinaryImages pf e folderPath = (Inl credentials_required, [])"
  by (simp add: listCloudinaryImages_def)

lemma listCloudinaryImages_no_credentials:
  assumes "\<not> truthy (CLOUDINARY_API_KEY e) \<or> \<not> truthy (CLOUDINARY_API_SECRET e)"
  shows "listCloudinaryImages pf e folderPath = (Inl credentials_required, [])"
proof (cases "getCloudinaryConfig e")
  case None
  then show ?thesis
    by (rule listCloudinaryImages_no_config)
next
  case (Some config)
  then have k: "apiKey config = CLOUDINARY_API_KEY e"
    and s: "apiSecret config = CLOUDINARY_API_SECRET e"
    by (auto simp: getCloudinaryConfig_def split: if_splits option.splits)
  show ?thesis
  proof (cases "CLOUDINARY_API_KEY e")
    case None
    with Some k show ?thesis
      by (simp add: listCloudinaryImages_def)
  next
    case key: (Some key)
    show ?thesis
    proof (cases "CLOUDINARY_API_SECRET e")
      case None
      with Some k s key show ?thesis
        by (simp add: listCloudinaryImages_def)
    next
      case secret: (Some secret)
      from assms key secret have "key = [] \<or> secret = []"
        by (simp add: truthy_def)
      with Some k s key secret show ?thesis
        by (simp add: listCloudinaryImages_def)
    qed
  qed
qed

text \<open>
  C8. With the API key or the API secret absent, \<^verbatim>\<open>listCloudinaryImages\<close> fails with the
  credentials error and has caused no event at all, so no request was issued.
\<close>

theorem listCloudinaryImages_missing_credentials:
  "\<not> truthy (CLOUDINARY_API_KEY e) \<or> \<not> truthy (CLOUDINARY_API_SECRET e) \<Longrightarrow>
   fst (listCloudinaryImages pf e folderPath) = Inl credentials_required
   \<and> snd (listCloudinaryImages pf e folderPath) = []"
  by (simp add: listCloudinaryImages_no_credentials)

theorem listCloudinaryImages_missing_credentials_witness:
  "\<not> truthy (CLOUDINARY_API_KEY no_credentials_env)
   \<and> \<not> truthy (CLOUDINARY_API_SECRET no_credentials_env)
   \<and> fst (listCloudinaryImages demo_platform no_credentials_env ''galleries/trip'')
       = Inl credentials_required
   \<and> snd (listCloudinaryImages demo_platform no_credentials_env ''galleries/trip'') = []"
  using listCloudinaryImages_missing_credentials
    [of no_credentials_env demo_platform "''galleries/trip''"]
  by (simp add: no_credentials_env_def truthy_def)

text \<open>
  C2, as amended. With the cloud name absent, \<^verbatim>\<open>listCloudinaryImages\<close> fails, before any
  request, with the same credentials error that it raises when the cloud name is present
  and the API key or secret is absent: the listing does not tell the two states apart.
\<close>

theorem listCloudinaryImages_missing_cloud_name:
  "\<not> truthy (PUBLIC_CLOUDINARY_CLOUD_NAME e) \<Longrightarrow>
   truthy (PUBLIC_CLOUDINARY_CLOUD_NAME e') \<Longrightarrow>
   \<not> truthy (CLOUDINARY_API_KEY e') \<or> \<not> truthy (CLOUDINARY_API_SECRET e') \<Longrightarrow>
   listCloudinaryImages pf e folderPath = (Inl credentials_required, [])
   \<and> listCloudinaryImages pf' e' folderPath' = listCloudinaryImages pf e folderPath"
  by (simp add: listCloudinaryImages_no_credentials listCloudinaryImages_no_config
      getCloudinaryConfig_def)

theorem listCloudinaryImages_missing_cloud_name_witness:
  "\<not> truthy (PUBLIC_CLOUDINARY_CLOUD_NAME no_cloud_name_env)
   \<and> truthy (PUBLIC_CLOUDINARY_CLOUD_NAME no_credentials_env)
   \<and> \<not> truthy (CLOUDINARY_API_KEY no_credentials_env)
   \<and> \<not> truthy (CLOUDINARY_API_SECRET no_credentials_env)
   \<and> listCloudinaryImages demo_platform no_cloud_name_env ''galleries/trip''
       = (Inl credentials_required, [])
   \<and> listCloudinaryImages demo_platform no_credentials_env ''galleries/trip''
       = listCloudinaryImages demo_platform no_cloud_name_env ''galleries/trip''"
  using listCloudinaryImages_missing_cloud_name
    [of no_cloud_name_env no_credentials_env demo_platform "''galleries/trip''"
        demo_platform "''galleries/trip''"]
  by (simp add: no_credentials_env_def no_cloud_name_env_def truthy_def)

text \<open>
  C2, as stated, fails: a configuration that lacks only the cloud name and one that has a
  cloud name but no credentials make the listing fail with one and the same error, which
  is not the configuration error of the URL builders.
\<close>

theorem listCloudinaryImages_errors_not_distinguished:
  "\<not> truthy (PUBLIC_CLOUDINARY_CLOUD_NAME no_cloud_name_env)
   \<and> truthy (CLOUDINARY_API_KEY no_cloud_name_env)
   \<and> truthy (CLOUDINARY_API_SECRET no_cloud_name_env)
   \<and> truthy (PUBLIC_CLOUDINARY_CLOUD_NAME no_credentials_env)
   \<and> \<not> truthy (CLOUDINARY_API_KEY no_credentials_env)
   \<and> fst (listCloudinaryImages demo_platform no_cloud_name_env ''galleries/trip'')
       = fst (listCloudinaryImages demo_platform no_credentials_env ''galleries/trip'')
   \<and> fst (listCloudinaryImages demo_platform no_cloud_name_env ''galleries/trip'')
       \<noteq> Inl not_configured"
  by (simp add: listCloudinaryImages_def getCloudinaryConfig_def no_cloud_name_env_def
      no_credentials_env_def truthy_def credentials_required_def not_configured_def)


section \<open>Properties of the path translator\<close>

lemma galleries_group_Some:
  "galleries_group t = Some g \<Longrightarrow> g = t \<and> prefix ''galleries/'' t \<and> dot_plus_end (drop 10 t)"
  by (auto simp: galleries_group_def split: if_splits)

lemma galleries_search_Some:
  "galleries_search b s = Some g \<Longrightarrow> suffix g s \<and> galleries_group g = Some g"
proof (induction s arbitrary: b)
  case Nil
  then show ?case by simp
next
  case (Cons c cs)
  show ?case
  proof (cases "b \<and> galleries_group (c # cs) \<noteq> None")
    case True
    with Cons.prems have "galleries_group (c # cs) = Some g"
      by auto
    then show ?thesis
      using galleries_group_Some [of "c # cs" g] by simp
  next
    case False
    then have first: "(if b then galleries_group (c # cs) else None) = None"
      by auto
    show ?thesis
    proof (cases "c = CHR ''/'' \<and> galleries_group cs \<noteq> None")
      case True
      with Cons.prems first have "galleries_group cs = Some g"
        by auto
      then show ?thesis
        using galleries_group_Some [of cs g] by (simp add: suffix_ConsI)
    next
      case False
      then have "(if c = CHR ''/'' then galleries_group cs else None) = None"
        by auto
      with Cons.prems first have "galleries_search False cs = Some g"
        by simp
      from Cons.IH [OF this] show ?thesis
        by (simp add: suffix_ConsI)
    qed
  qed
qed

lemma galleries_search_at_start:
  assumes "galleries_group g = Some g"
  shows "galleries_search True g = Some g"
proof (cases g)
  case Nil
  with assms show ?thesis
    by (simp add: galleries_group_def)
next
  case (Cons c cs)
  with assms show ?thesis
    by simp
qed

lemma galleries_search_None_suffix:
  "galleries_search b s = None \<Longrightarrow> suffix r s \<Longrightarrow> galleries_search False r = None"
proof (induction s arbitrary: b)
  case Nil
  then show ?case by simp
next
  case (Cons c cs)
  from Cons.prems(1) have later: "galleries_search False cs = None"
    and slash: "(if c = CHR ''/'' then galleries_group cs else None) = None"
    by (auto split: option.splits if_splits)
  from Cons.prems(2) consider "r = c # cs" | "suffix r cs"
    by (auto simp: suffix_Cons)
  then show ?case
  proof cases
    case 1
    with later slash show ?thesis
      by simp
  next
    case 2
    from Cons.IH [OF later 2] show ?thesis .
  qed
qed

lemma galleries_search_later:
  "galleries_search True s = Some g \<Longrightarrow> galleries_group s = None \<Longrightarrow>
   galleries_search False s = Some g"
  by (cases s) auto

lemma normalize_no_backslash: "CHR 0x5C \<notin> set (normalize_separators s)"
  by (auto simp: normalize_separators_def)

lemma normalize_id: "CHR 0x5C \<notin> set s \<Longrightarrow> normalize_separators s = s"
  by (induction s) (auto simp: normalize_separators_def)

lemma suffix_no_backslash: "suffix r s \<Longrightarrow> CHR 0x5C \<notin> set s \<Longrightarrow> CHR 0x5C \<notin> set r"
  by (auto simp: suffix_def)

lemma suffix_strip_prefix: "suffix (strip_prefix p s) s"
  by (simp add: strip_prefix_def suffix_drop)

lemma fallback_suffix:
  "suffix (strip_prefix ''content/'' (strip_prefix ''src/'' s)) s"
  using suffix_strip_prefix suffix_order.trans by blast

lemma localPath_cases:
  obtains (matched) g where "galleries_search True (normalize_separators p) = Some g"
      "localPathToCloudinaryPublicId p = g"
  | (kept) "galleries_search True (normalize_separators p) = None"
      "prefix ''galleries/'' (strip_prefix ''content/'' (strip_prefix ''src/'' (normalize_separators p)))"
      "localPathToCloudinaryPublicId p = strip_prefix ''content/'' (strip_prefix ''src/'' (normalize_separators p))"
  | (prepended) "galleries_search True (normalize_separators p) = None"
      "\<not> prefix ''galleries/'' (strip_prefix ''content/'' (strip_prefix ''src/'' (normalize_separators p)))"
      "localPathToCloudinaryPublicId p = ''galleries/'' @ strip_prefix ''content/'' (strip_prefix ''src/'' (normalize_separators p))"
  by (cases "galleries_search True (normalize_separators p)")
     (auto simp: localPathToCloudinaryPublicId_def Let_def startsWith_def)

lemma localPath_prefix: "prefix ''galleries/'' (localPathToCloudinaryPublicId p)"
proof (cases p rule: localPath_cases)
  case (matched g)
  then show ?thesis
    using galleries_search_Some [of True "normalize_separators p" g]
      galleries_group_Some [of g g] by simp
next
  case kept
  then show ?thesis by simp
next
  case prepended
  then show ?thesis by simp
qed

lemma localPath_no_backslash: "CHR 0x5C \<notin> set (localPathToCloudinaryPublicId p)"
proof -
  let ?n = "normalize_separators p"
  let ?r = "strip_prefix ''content/'' (strip_prefix ''src/'' ?n)"
  have r: "CHR 0x5C \<notin> set ?r"
    by (rule suffix_no_backslash [OF fallback_suffix normalize_no_backslash])
  show ?thesis
  proof (cases p rule: localPath_cases)
    case (matched g)
    then have "suffix g ?n"
      using galleries_search_Some [of True ?n g] by simp
    from suffix_no_backslash [OF this normalize_no_backslash] matched show ?thesis
      by simp
  next
    case kept
    with r show ?thesis by simp
  next
    case prepended
    with r show ?thesis by simp
  qed
qed

lemma includes_str_prefix: "prefix t s \<Longrightarrow> includes_str s t"
  by (cases s) auto

text \<open>
  C4. For a local path that contains \<^verbatim>\<open>galleries/\<close>, the translated identifier holds
  no backslash, does not start with \<^verbatim>\<open>/\<close>, and begins with (hence contains) the
  namespace root \<^verbatim>\<open>galleries/\<close>.
\<close>

theorem localPathToCloudinaryPublicId_canonical:
  "includes_str p ''galleries/'' \<Longrightarrow>
   CHR 0x5C \<notin> set (localPathToCloudinaryPublicId p)
   \<and> \<not> startsWith (localPathToCloudinaryPublicId p) ''/''
   \<and> startsWith (localPathToCloudinaryPublicId p) ''galleries/''
   \<and> includes_str (localPathToCloudinaryPublicId p) ''galleries/''"
proof -
  have pre: "prefix ''galleries/'' (localPathToCloudinaryPublicId p)"
    by (rule localPath_prefix)
  then have "\<not> prefix ''/'' (localPathToCloudinaryPublicId p)"
    by (cases "localPathToCloudinaryPublicId p") auto
  with pre show ?thesis
    by (simp add: startsWith_def localPath_no_backslash includes_str_prefix)
qed

theorem localPathToCloudinaryPublicId_canonical_witness:
  "includes_str ''../../content/galleries/gallery1/image.jpg'' ''galleries/''
   \<and> localPathToCloudinaryPublicId ''../../content/galleries/gallery1/image.jpg''
       = ''galleries/gallery1/image.jpg''
   \<and> CHR 0x5C \<notin> set (localPathToCloudinaryPublicId ''../../content/galleries/gallery1/image.jpg'')
   \<and> \<not> startsWith (localPathToCloudinaryPublicId ''../../content/galleries/gallery1/image.jpg'') ''/''
   \<and> startsWith (localPathToCloudinaryPublicId ''../../content/galleries/gallery1/image.jpg'')
         ''galleries/''"
proof -
  have i: "includes_str ''../../content/galleries/gallery1/image.jpg'' ''galleries/''"
    by code_simp
  have v: "localPathToCloudinaryPublicId ''../../content/galleries/gallery1/image.jpg''
      = ''galleries/gallery1/image.jpg''"
    by code_simp
  from localPathToCloudinaryPublicId_canonical [OF i] i v show ?thesis
    by simp
qed

lemma search_prepended:
  assumes "galleries_search False r = None" and "\<not> prefix ''galleries/'' r"
  shows "galleries_search True (''galleries/'' @ r)
     = (if dot_plus_end r then Some (''galleries/'' @ r) else None)"
proof -
  have "galleries_group r = None"
    using assms(2) by (simp add: galleries_group_def)
  with assms(1) show ?thesis
    by (simp add: galleries_group_def)
qed

lemma fallback_galleries:
  assumes "prefix ''galleries/'' q" and "CHR 0x5C \<notin> set q"
    and "galleries_search True q = None"
  shows "localPathToCloudinaryPublicId q = q"
proof -
  from assms(1) obtain r where q: "q = ''galleries/'' @ r"
    by (auto simp: prefix_def)
  have "strip_prefix ''src/'' q = q" "strip_prefix ''content/'' q = q"
    unfolding q by (simp_all add: strip_prefix_def)
  with assms show ?thesis
    by (simp add: localPathToCloudinaryPublicId_def normalize_id startsWith_def)
qed

lemma matched_fixed:
  assumes "galleries_group g = Some g" and "CHR 0x5C \<notin> set g"
  shows "localPathToCloudinaryPublicId g = g"
  using assms galleries_search_at_start [of g]
  by (simp add: localPathToCloudinaryPublicId_def normalize_id)

text \<open>
  C10. The path translator is idempotent: translating an identifier it has produced
  leaves the identifier unchanged, for every input string.
\<close>

theorem localPathToCloudinaryPublicId_idempotent:
  "localPathToCloudinaryPublicId (localPathToCloudinaryPublicId p)
     = localPathToCloudinaryPublicId p"
proof -
  let ?q = "localPathToCloudinaryPublicId p"
  have nb: "CHR 0x5C \<notin> set ?q"
    by (rule localPath_no_backslash)
  have pre: "prefix ''galleries/'' ?q"
    by (rule localPath_prefix)
  show ?thesis
  proof (cases "galleries_search True ?q")
    case None
    with pre nb show ?thesis
      by (rule fallback_galleries)
  next
    case (Some g)
    have "g = ?q"
    proof (cases "galleries_group ?q")
      case (Some h)
      then have "galleries_group ?q = Some ?q"
        using galleries_group_Some [of ?q h] by simp
      from galleries_search_at_start [OF this] \<open>galleries_search True ?q = Some g\<close>
      show ?thesis by simp
    next
      case None
      with \<open>galleries_search True ?q = Some g\<close> have later: "galleries_search False ?q = Some g"
        by (rule galleries_search_later)
      show ?thesis
      proof (cases p rule: localPath_cases)
        case (matched m)
        with None show ?thesis
          using galleries_search_Some [of True "normalize_separators p" m] by simp
      next
        case kept
        from galleries_search_None_suffix [OF kept(1) fallback_suffix] kept(3) later
        show ?thesis by simp
      next
        case prepended
        let ?r = "strip_prefix ''content/'' (strip_prefix ''src/'' (normalize_separators p))"
        have "galleries_search False ?r = None"
          using galleries_search_None_suffix [OF prepended(1) fallback_suffix] .
        from search_prepended [OF this prepended(2)] prepended(3) \<open>galleries_search True ?q = Some g\<close>
        show ?thesis
          by (simp split: if_splits)
      qed
    qed
    with Some have "galleries_group ?q = Some ?q"
      using galleries_search_Some [of True ?q g] by simp
    then show ?thesis
      using nb by (rule matched_fixed)
  qed
qed


section \<open>Properties of the metadata resolver\<close>

lemma set_insert_by: "set (insert_by compareFn x ys) = insert x (set ys)"
  by (induction ys) auto

lemma set_sort_by: "set (sort_by compareFn xs) = set xs"
  by (induction xs) (simp_all add: sort_by_def set_insert_by)

lemma sort_by_Cons: "sort_by compareFn (x # xs) = insert_by compareFn x (sort_by compareFn xs)"
  by (simp add: sort_by_def)

lemma sorted_insert_by:
  assumes total: "\<And>a b. a \<in> A \<Longrightarrow> b \<in> A \<Longrightarrow> compareFn a b \<le> 0 \<or> compareFn b a \<le> 0"
    and trans: "\<And>a b c. a \<in> A \<Longrightarrow> b \<in> A \<Longrightarrow> c \<in> A \<Longrightarrow>
        compareFn a b \<le> 0 \<Longrightarrow> compareFn b c \<le> 0 \<Longrightarrow> compareFn a c \<le> 0"
  shows "x \<in> A \<Longrightarrow> set ys \<subseteq> A \<Longrightarrow> sorted_wrt (\<lambda>a b. compareFn a b \<le> 0) ys \<Longrightarrow>
     sorted_wrt (\<lambda>a b. compareFn a b \<le> 0) (insert_by compareFn x ys)"
proof (induction ys)
  case Nil
  then show ?case by simp
next
  case (Cons y ys)
  show ?case
  proof (cases "compareFn x y \<le> 0")
    case True
    have "compareFn x z \<le> 0" if "z \<in> set ys" for z
    proof -
      from Cons.prems that have "compareFn y z \<le> 0" "z \<in> A" "y \<in> A"
        by auto
      with True Cons.prems(1) show ?thesis
        using trans [of x y z] by blast
    qed
    with True Cons.prems show ?thesis
      by simp
  next
    case False
    with Cons.prems total [of x y] have yx: "compareFn y x \<le> 0"
      by auto
    from Cons.prems have "sorted_wrt (\<lambda>a b. compareFn a b \<le> 0) (insert_by compareFn x ys)"
      by (intro Cons.IH) auto
    with False yx Cons.prems show ?thesis
      by (auto simp: set_insert_by)
  qed
qed

lemma sorted_sort_by:
  assumes total: "\<And>a b. a \<in> A \<Longrightarrow> b \<in> A \<Longrightarrow> compareFn a b \<le> 0 \<or> compareFn b a \<le> 0"
    and trans: "\<And>a b c. a \<in> A \<Longrightarrow> b \<in> A \<Longrightarrow> c \<in> A \<Longrightarrow>
        compareFn a b \<le> 0 \<Longrightarrow> compareFn b c \<le> 0 \<Longrightarrow> compareFn a c \<le> 0"
  shows "set xs \<subseteq> A \<Longrightarrow> sorted_wrt (\<lambda>a b. compareFn a b \<le> 0) (sort_by compareFn xs)"
proof (induction xs)
  case Nil
  then show ?case by (simp add: sort_by_def)
next
  case (Cons x xs)
  then have "sorted_wrt (\<lambda>a b. compareFn a b \<le> 0) (sort_by compareFn xs)"
    by simp
  moreover from Cons.prems have "x \<in> A" "set (sort_by compareFn xs) \<subseteq> A"
    by (simp_all add: set_sort_by)
  ultimately show ?case
    unfolding sort_by_Cons using total trans by (intro sorted_insert_by [where A = A]) blast+
qed

lemma sort_by_head_least:
  assumes total: "\<And>a b. a \<in> set xs \<Longrightarrow> b \<in> set xs \<Longrightarrow> compareFn a b \<le> 0 \<or> compareFn b a \<le> 0"
    and trans: "\<And>a b c. a \<in> set xs \<Longrightarrow> b \<in> set xs \<Longrightarrow> c \<in> set xs \<Longrightarrow>
        compareFn a b \<le> 0 \<Longrightarrow> compareFn b c \<le> 0 \<Longrightarrow> compareFn a c \<le> 0"
    and sorted: "sort_by compareFn xs = r # rest"
  shows "r \<in> set xs \<and> (\<forall>y \<in> set xs. compareFn r y \<le> 0)"
proof -
  have r: "r \<in> set xs"
    using set_sort_by [of compareFn xs] sorted by auto
  have "sorted_wrt (\<lambda>a b. compareFn a b \<le> 0) (sort_by compareFn xs)"
    using total trans by (intro sorted_sort_by [where A = "set xs"]) blast+
  with sorted have rest: "\<forall>y \<in> set rest. compareFn r y \<le> 0"
    by simp
  have "compareFn r y \<le> 0" if "y \<in> set xs" for y
  proof -
    from that have "y \<in> set (r # rest)"
      using set_sort_by [of compareFn xs] sorted by simp
    then show ?thesis
      using rest total [OF r r] by auto
  qed
  with r show ?thesis by blast
qed

lemma sort_by_nonempty: "xs \<noteq> [] \<Longrightarrow> sort_by compareFn xs \<noteq> []"
  using set_sort_by [of compareFn xs] by (cases "sort_by compareFn xs") auto

lemma listed_configured:
  "fst (listCloudinaryImages pf e folderPath) = Inr rs \<Longrightarrow> \<exists>config. getCloudinaryConfig e = Some config"
  by (cases "getCloudinaryConfig e") (simp_all add: listCloudinaryImages_no_config)

lemma thumbnail_configured:
  "getCloudinaryConfig e = Some config \<Longrightarrow> \<exists>u. buildCloudinaryThumbnailUrl e publicId w h = Inr u"
  by (simp add: buildCloudinaryThumbnailUrl_def buildCloudinaryUrl_def Let_def)

lemma firstImageUrl_configured:
  assumes "getCloudinaryConfig e = Some config"
  shows "\<exists>u. firstImageUrl_of pf e rs = Inr u"
proof (cases "rs = []")
  case True
  then show ?thesis by (simp add: firstImageUrl_of_def)
next
  case False
  then obtain r rest where
    "sort_by (\<lambda>a b. localeCompare pf (public_id a) (public_id b)) rs = r # rest"
    using sort_by_nonempty [of rs] by (meson list.exhaust)
  with False thumbnail_configured [OF assms] show ?thesis
    by (simp add: firstImageUrl_of_def)
qed

lemma galleryPromise_listed:
  assumes "fst (listCloudinaryImages pf e (''galleries/'' @ strip_index (entry_id entry))) = Inr rs"
    and "firstImageUrl_of pf e rs = Inr firstImageUrl"
    and "finalImagePath_of e (strip_index (entry_id entry)) (or_empty (data_image (data entry)))
           firstImageUrl = Inr finalImagePath"
  shows "\<exists>g. fst (galleryPromise pf e entry) = Inr g \<and> image_url g = finalImagePath
     \<and> imageCount g = length rs \<and> slug g = strip_index (entry_id entry)"
  using assms by (simp add: galleryPromise_def Let_def)

lemma demo_listing:
  "fst (listCloudinaryImages demo_platform demo_env ''galleries/trip'') = Inr trip_inventory"
  by (simp add: listCloudinaryImages_def getCloudinaryConfig_def demo_env_def truthy_def
      demo_platform_def trip_response_def endsWith_def Let_def)

lemma collation_listing:
  "fst (listCloudinaryImages (collation_platform inventory) demo_env ''galleries/trip'') = Inr inventory"
  by (simp add: listCloudinaryImages_def getCloudinaryConfig_def demo_env_def truthy_def
      collation_platform_def endsWith_def Let_def)

lemma strip_index_trip: "strip_index ''trip/index'' = ''trip''"
  by code_simp

text \<open>
  C7. For the gallery \<^verbatim>\<open>trip\<close> whose metadata declares the image \<^verbatim>\<open>cover.jpg\<close>, and
  whatever the inventory lists, the resolved cover URL is the 600x400 thumbnail URL of
  \<^verbatim>\<open>galleries/trip/cover.jpg\<close>, which the path translator leaves as it is.
\<close>

theorem declared_cover_takes_precedence:
  assumes "strip_index (entry_id entry) = ''trip''"
    and "data_image (data entry) = Some ''cover.jpg''"
    and "fst (listCloudinaryImages pf e ''galleries/trip'') = Inr rs"
  shows "\<exists>g. fst (galleryPromise pf e entry) = Inr g
     \<and> Inr (image_url g) = buildCloudinaryThumbnailUrl e ''galleries/trip/cover.jpg'' (Some 600) (Some 400)
     \<and> Inr (image_url g) = buildCloudinaryThumbnailUrl e
          (localPathToCloudinaryPublicId ''galleries/trip/cover.jpg'') (Some 600) (Some 400)"
proof -
  from listed_configured [OF assms(3)] obtain config where c: "getCloudinaryConfig e = Some config"
    by blast
  from firstImageUrl_configured [OF c] obtain f where f: "firstImageUrl_of pf e rs = Inr f"
    by blast
  from thumbnail_configured [OF c] obtain u where
    u: "buildCloudinaryThumbnailUrl e ''galleries/trip/cover.jpg'' (Some 600) (Some 400) = Inr u"
    by blast
  have t: "localPathToCloudinaryPublicId ''galleries/trip/cover.jpg'' = ''galleries/trip/cover.jpg''"
    by code_simp
  have "finalImagePath_of e ''trip'' ''cover.jpg'' f = Inr u"
    using u t by (simp add: finalImagePath_of_def startsWith_def)
  with assms f have "\<exists>g. fst (galleryPromise pf e entry) = Inr g \<and> image_url g = u
     \<and> imageCount g = length rs \<and> slug g = strip_index (entry_id entry)"
    by (intro galleryPromise_listed) (simp_all add: or_empty_def)
  with u t show ?thesis
    by auto
qed

theorem declared_cover_takes_precedence_witness:
  "strip_index (entry_id (trip_entry (Some ''cover.jpg''))) = ''trip''
   \<and> data_image (data (trip_entry (Some ''cover.jpg''))) = Some ''cover.jpg''
   \<and> fst (listCloudinaryImages demo_platform demo_env ''galleries/trip'') = Inr trip_inventory
   \<and> (\<exists>g. fst (galleryPromise demo_platform demo_env (trip_entry (Some ''cover.jpg''))) = Inr g
        \<and> Inr (image_url g)
            = buildCloudinaryThumbnailUrl demo_env ''galleries/trip/cover.jpg'' (Some 600) (Some 400)
        \<and> image_url g = ''https://res.cloudinary.com/demo/image/upload/w_600,h_400,c_limit,q_auto/galleries/trip/cover.jpg'')"
proof -
  have h1: "strip_index (entry_id (trip_entry (Some ''cover.jpg''))) = ''trip''"
    by (simp add: trip_entry_def strip_index_trip)
  have h2: "data_image (data (trip_entry (Some ''cover.jpg''))) = Some ''cover.jpg''"
    by (simp add: trip_entry_def)
  have v: "buildCloudinaryThumbnailUrl demo_env ''galleries/trip/cover.jpg'' (Some 600) (Some 400)
      = Inr ''https://res.cloudinary.com/demo/image/upload/w_600,h_400,c_limit,q_auto/galleries/trip/cover.jpg''"
    by code_simp
  from declared_cover_takes_precedence [OF h1 h2 demo_listing] h1 h2 demo_listing v show ?thesis
    by auto
qed

text \<open>
  C5, as amended. When the metadata declares no image and the listing is not empty, the
  resolved cover URL is the 600x400 thumbnail URL of a listed record whose identifier
  comes first in the order of \<^verbatim>\<open>localeCompare\<close> (a total preorder on the listed
  identifiers), which is the order the resolver sorts by.
\<close>

theorem first_listed_asset_is_default_cover:
  assumes total: "\<forall>a\<in>set rs. \<forall>b\<in>set rs.
        localeCompare pf (public_id a) (public_id b) \<le> 0
        \<or> localeCompare pf (public_id b) (public_id a) \<le> 0"
    and trans: "\<forall>a\<in>set rs. \<forall>b\<in>set rs. \<forall>c\<in>set rs.
        localeCompare pf (public_id a) (public_id b) \<le> 0
        \<and> localeCompare pf (public_id b) (public_id c) \<le> 0
        \<longrightarrow> localeCompare pf (public_id a) (public_id c) \<le> 0"
    and undeclared: "or_empty (data_image (data entry)) = []"
    and listed: "fst (listCloudinaryImages pf e (''galleries/'' @ strip_index (entry_id entry))) = Inr rs"
    and nonempty: "rs \<noteq> []"
  shows "\<exists>g r. fst (galleryPromise pf e entry) = Inr g
     \<and> r \<in> set rs
     \<and> (\<forall>r'\<in>set rs. localeCompare pf (public_id r) (public_id r') \<le> 0)
     \<and> Inr (image_url g) = buildCloudinaryThumbnailUrl e (public_id r) (Some 600) (Some 400)"
proof -
  let ?cmp = "\<lambda>a b. localeCompare pf (public_id a) (public_id b)"
  from listed_configured [OF listed] obtain config where c: "getCloudinaryConfig e = Some config"
    by blast
  from nonempty obtain r rest where s: "sort_by ?cmp rs = r # rest"
    using sort_by_nonempty [of rs ?cmp] by (meson list.exhaust)
  have least: "r \<in> set rs \<and> (\<forall>y \<in> set rs. ?cmp r y \<le> 0)"
  proof (rule sort_by_head_least [OF _ _ s])
    show "?cmp a b \<le> 0 \<or> ?cmp b a \<le> 0" if "a \<in> set rs" "b \<in> set rs" for a b
      using total that by blast
    show "?cmp a c \<le> 0"
      if "a \<in> set rs" "b \<in> set rs" "c \<in> set rs" "?cmp a b \<le> 0" "?cmp b c \<le> 0" for a b c
      using trans that by blast
  qed
  from thumbnail_configured [OF c] obtain u where
    u: "buildCloudinaryThumbnailUrl e (public_id r) (Some 600) (Some 400) = Inr u"
    by blast
  from nonempty s u have f: "firstImageUrl_of pf e rs = Inr u"
    by (simp add: firstImageUrl_of_def)
  have "finalImagePath_of e (strip_index (entry_id entry)) (or_empty (data_image (data entry))) u
      = Inr u"
    using undeclared by (simp add: finalImagePath_of_def)
  from galleryPromise_listed [OF listed f this] obtain g where
    "fst (galleryPromise pf e entry) = Inr g" "image_url g = u"
    by blast
  with least u show ?thesis
    by auto
qed

theorem first_listed_asset_is_default_cover_witness:
  "or_empty (data_image (data (trip_entry None))) = []
   \<and> fst (listCloudinaryImages (collation_platform trip_inventory) demo_env
        (''galleries/'' @ strip_index (entry_id (trip_entry None)))) = Inr trip_inventory
   \<and> trip_inventory \<noteq> []
   \<and> (\<exists>g. fst (galleryPromise (collation_platform trip_inventory) demo_env (trip_entry None)) = Inr g
        \<and> image_url g = ''https://res.cloudinary.com/demo/image/upload/w_600,h_400,c_limit,q_auto/galleries/trip/a.jpg'')"
proof -
  let ?pf = "collation_platform trip_inventory"
  have lc: "localeCompare ?pf = collation_compare"
    by (simp add: collation_platform_def)
  have aa: "collation_compare ''galleries/trip/a.jpg'' ''galleries/trip/a.jpg'' = 0"
    by code_simp
  have bb: "collation_compare ''galleries/trip/b.jpg'' ''galleries/trip/b.jpg'' = 0"
    by code_simp
  have ab: "collation_compare ''galleries/trip/a.jpg'' ''galleries/trip/b.jpg'' = - 1"
    by code_simp
  have ba: "collation_compare ''galleries/trip/b.jpg'' ''galleries/trip/a.jpg'' = 1"
    by code_simp
  have total: "\<forall>a\<in>set trip_inventory. \<forall>b\<in>set trip_inventory.
        localeCompare ?pf (public_id a) (public_id b) \<le> 0
        \<or> localeCompare ?pf (public_id b) (public_id a) \<le> 0"
    unfolding lc by (simp add: trip_inventory_def image_record_def aa bb ab ba)
  have trans: "\<forall>a\<in>set trip_inventory. \<forall>b\<in>set trip_inventory. \<forall>c\<in>set trip_inventory.
        localeCompare ?pf (public_id a) (public_id b) \<le> 0
        \<and> localeCompare ?pf (public_id b) (public_id c) \<le> 0
        \<longrightarrow> localeCompare ?pf (public_id a) (public_id c) \<le> 0"
    unfolding lc by (simp add: trip_inventory_def image_record_def aa bb ab ba)
  have h3: "or_empty (data_image (data (trip_entry None))) = []"
    by (simp add: trip_entry_def or_empty_def)
  have h4: "fst (listCloudinaryImages ?pf demo_env
        (''galleries/'' @ strip_index (entry_id (trip_entry None)))) = Inr trip_inventory"
    using collation_listing [of trip_inventory] by (simp add: trip_entry_def strip_index_trip)
  have h5: "trip_inventory \<noteq> []"
    by (simp add: trip_inventory_def)
  have v: "fst (galleryPromise ?pf demo_env (trip_entry None))
     = Inr \<lparr>slug = ''trip'', name = ''trip'', title = ''Trip'', imageCount = 2,
        published = 0, description = [],
        image_url = ''https://res.cloudinary.com/demo/image/upload/w_600,h_400,c_limit,q_auto/galleries/trip/a.jpg'',
        tags = [], location = []\<rparr>"
    by code_simp
  from first_listed_asset_is_default_cover [OF total trans h3 h4 h5] h3 h4 h5 v show ?thesis
    by simp
qed

text \<open>
  C5, as stated, fails: with the identifiers \<^verbatim>\<open>galleries/trip/a.jpg\<close> and
  \<^verbatim>\<open>galleries/trip/B.jpg\<close> listed, the lexicographically smallest identifier is the one
  of \<^verbatim>\<open>B.jpg\<close>, and the resolved cover is the thumbnail of \<^verbatim>\<open>a.jpg\<close>, which the
  collation puts first.
\<close>

theorem default_cover_not_lexicographically_first:
  "or_empty (data_image (data (trip_entry None))) = []
   \<and> fst (listCloudinaryImages (collation_platform case_inventory) demo_env ''galleries/trip'')
       = Inr case_inventory
   \<and> lexicographically_first case_inventory = ''galleries/trip/B.jpg''
   \<and> fst (galleryPromise (collation_platform case_inventory) demo_env (trip_entry None))
       = Inr \<lparr>slug = ''trip'', name = ''trip'', title = ''Trip'', imageCount = 2,
           published = 0, description = [],
           image_url = ''https://res.cloudinary.com/demo/image/upload/w_600,h_400,c_limit,q_auto/galleries/trip/a.jpg'',
           tags = [], location = []\<rparr>
   \<and> buildCloudinaryThumbnailUrl demo_env (lexicographically_first case_inventory) (Some 600) (Some 400)
       = Inr ''https://res.cloudinary.com/demo/image/upload/w_600,h_400,c_limit,q_auto/galleries/trip/B.jpg''
   \<and> map_sum id image_url
         (fst (galleryPromise (collation_platform case_inventory) demo_env (trip_entry None)))
       \<noteq> buildCloudinaryThumbnailUrl demo_env (lexicographically_first case_inventory)
           (Some 600) (Some 400)"
proof -
  have a: "or_empty (data_image (data (trip_entry None))) = []"
    by (simp add: trip_entry_def or_empty_def)
  have b: "lexicographically_first case_inventory = ''galleries/trip/B.jpg''"
    by code_simp
  have c: "fst (galleryPromise (collation_platform case_inventory) demo_env (trip_entry None))
       = Inr \<lparr>slug = ''trip'', name = ''trip'', title = ''Trip'', imageCount = 2,
           published = 0, description = [],
           image_url = ''https://res.cloudinary.com/demo/image/upload/w_600,h_400,c_limit,q_auto/galleries/trip/a.jpg'',
           tags = [], location = []\<rparr>"
    by code_simp
  have d: "buildCloudinaryThumbnailUrl demo_env ''galleries/trip/B.jpg'' (Some 600) (Some 400)
       = Inr ''https://res.cloudinary.com/demo/image/upload/w_600,h_400,c_limit,q_auto/galleries/trip/B.jpg''"
    by code_simp
  from a b c d collation_listing [of case_inventory] show ?thesis
    by simp
qed


section \<open>Properties of the extraction\<close>

lemma digit_not_slash:
  assumes "d < 10"
  shows "digit d \<noteq> CHR ''/''"
proof
  assume "digit d = CHR ''/''"
  then have "of_char (digit d) = (of_char (CHR ''/'') :: nat)"
    by simp
  moreover have "of_char (digit d) = (48 + d :: nat)"
    using assms by (simp add: digit_def)
  ultimately show False
    by simp
qed

lemma show_nat_no_slash: "CHR ''/'' \<notin> set (show_nat n)"
proof (induction n rule: show_nat.induct)
  case (1 n)
  show ?case
  proof (cases "n < 10")
    case True
    then show ?thesis
      using digit_not_slash [of n] by (subst show_nat.simps) auto
  next
    case False
    have "n mod 10 < 10"
      by simp
    with False 1 show ?thesis
      using digit_not_slash [of "n mod 10"] by (subst show_nat.simps) auto
  qed
qed

lemma numberToString_no_slash: "CHR ''/'' \<notin> set (numberToString i)"
  by (simp add: numberToString_def show_nat_no_slash)

lemma width_token_no_slash: "width_token options = Some t \<Longrightarrow> CHR ''/'' \<notin> set t \<and> t \<noteq> []"
  by (auto simp: width_token_def numberToString_no_slash split: option.splits if_splits)

lemma height_token_no_slash: "height_token options = Some t \<Longrightarrow> CHR ''/'' \<notin> set t \<and> t \<noteq> []"
  by (auto simp: height_token_def numberToString_no_slash split: option.splits if_splits)

lemma crop_token_no_slash: "crop_token options = Some t \<Longrightarrow> CHR ''/'' \<notin> set t \<and> t \<noteq> []"
proof -
  have "CHR ''/'' \<notin> set (crop_string c)" for c
    by (cases c) simp_all
  then show "crop_token options = Some t \<Longrightarrow> CHR ''/'' \<notin> set t \<and> t \<noteq> []"
    by (auto simp: crop_token_def)
qed

lemma gravity_token_no_slash: "gravity_token options = Some t \<Longrightarrow> CHR ''/'' \<notin> set t \<and> t \<noteq> []"
proof -
  have "CHR ''/'' \<notin> set (gravity_string g)" for g
    by (cases g) simp_all
  then show "gravity_token options = Some t \<Longrightarrow> CHR ''/'' \<notin> set t \<and> t \<noteq> []"
    by (auto simp: gravity_token_def)
qed

lemma quality_token_no_slash: "quality_token options = Some t \<Longrightarrow> CHR ''/'' \<notin> set t \<and> t \<noteq> []"
  by (auto simp: quality_token_def numberToString_no_slash
      split: option.splits quality.splits if_splits)

lemma format_token_no_slash: "format_token options = Some t \<Longrightarrow> CHR ''/'' \<notin> set t \<and> t \<noteq> []"
proof -
  have "CHR ''/'' \<notin> set (format_string f)" for f
    by (cases f) simp_all
  then show "format_token options = Some t \<Longrightarrow> CHR ''/'' \<notin> set t \<and> t \<noteq> []"
    by (auto simp: format_token_def split: option.splits if_splits)
qed

lemma token_no_slash:
  assumes "t \<in> set (transformations options)"
  shows "CHR ''/'' \<notin> set t \<and> t \<noteq> []"
  using assms width_token_no_slash height_token_no_slash crop_token_no_slash
    gravity_token_no_slash quality_token_no_slash format_token_no_slash
  unfolding token_mem by blast

lemma join_no_slash:
  "CHR ''/'' \<notin> set sep \<Longrightarrow> (\<And>t. t \<in> set ts \<Longrightarrow> CHR ''/'' \<notin> set t \<and> t \<noteq> []) \<Longrightarrow>
   ts \<noteq> [] \<Longrightarrow> CHR ''/'' \<notin> set (join ts sep) \<and> join ts sep \<noteq> []"
proof (induction ts sep rule: join.induct)
  case (1 sep)
  then show ?case by simp
next
  case (2 x sep)
  then show ?case by simp
next
  case (3 x y ys sep)
  have "CHR ''/'' \<notin> set (join (y # ys) sep)"
    using 3 by simp
  moreover have "CHR ''/'' \<notin> set x \<and> x \<noteq> []"
    using "3.prems" by simp
  ultimately show ?case
    using "3.prems"(1) by simp
qed

lemma segment_none: "CHR ''/'' \<notin> set s \<Longrightarrow> segment s = None"
  by (simp add: segment_def Let_def)

lemma segment_step:
  assumes "seg \<noteq> []" and "CHR ''/'' \<notin> set seg"
  shows "segment (seg @ CHR ''/'' # r) = Some r"
proof -
  have "takeWhile (\<lambda>c. c \<noteq> CHR ''/'') (seg @ CHR ''/'' # r) = seg"
    using assms(2) by (subst takeWhile_append2) auto
  moreover have "dropWhile (\<lambda>c. c \<noteq> CHR ''/'') (seg @ CHR ''/'' # r) = CHR ''/'' # r"
    using assms(2) by (subst dropWhile_append2) auto
  ultimately show ?thesis
    using assms(1) by (simp add: segment_def)
qed

lemma segments_then_group_last:
  "CHR ''/'' \<notin> set s \<Longrightarrow> dot_plus_end s \<Longrightarrow> segments_then_group s = Some s"
  by (subst segments_then_group.simps) (simp add: segment_none)

lemma segments_then_group_step:
  "seg \<noteq> [] \<Longrightarrow> CHR ''/'' \<notin> set seg \<Longrightarrow> segments_then_group r = Some g \<Longrightarrow>
   segments_then_group (seg @ CHR ''/'' # r) = Some g"
  by (subst segments_then_group.simps) (simp add: segment_step)

lemma upload_search_skip: "CHR ''/'' \<notin> set xs \<Longrightarrow> upload_search (xs @ ys) = upload_search ys"
  by (induction xs) auto

lemma prefix_upload:
  assumes "CHR ''/'' \<notin> set cn"
  shows "prefix ''upload/'' (cn @ CHR ''/'' # r) \<longleftrightarrow> cn = ''upload''"
proof
  assume "prefix ''upload/'' (cn @ CHR ''/'' # r)"
  then obtain z where z: "cn @ CHR ''/'' # r = ''upload'' @ CHR ''/'' # z"
    by (auto simp: prefix_def)
  have "takeWhile (\<lambda>c. c \<noteq> CHR ''/'') (cn @ CHR ''/'' # r) = cn"
    using assms by (subst takeWhile_append2) auto
  moreover have "takeWhile (\<lambda>c. c \<noteq> CHR ''/'') (''upload'' @ CHR ''/'' # z) = ''upload''"
    by simp
  ultimately show "cn = ''upload''"
    using z by simp
next
  assume "cn = ''upload''"
  then show "prefix ''upload/'' (cn @ CHR ''/'' # r)"
    by simp
qed

lemma upload_search_url:
  assumes cn: "CHR ''/'' \<notin> set cn"
    and g: "segments_then_group r = Some g"
  shows "upload_search (''https://res.cloudinary.com/'' @ cn @ ''/image/upload/'' @ r) = Some g"
proof (cases "cn = ''upload''")
  case True
  have "segments_then_group (''upload'' @ CHR ''/'' # r) = Some g"
    using g segments_then_group_step [of "''upload''" r g] by simp
  then have "segments_then_group (''image'' @ CHR ''/'' # ''upload'' @ CHR ''/'' # r) = Some g"
    using segments_then_group_step [of "''image''" "''upload'' @ CHR ''/'' # r" g] by simp
  with True show ?thesis
    by simp
next
  case False
  then have "\<not> prefix ''upload/'' (cn @ CHR ''/'' # ''image/upload/'' @ r)"
    using prefix_upload [OF cn] by simp
  moreover have "upload_search (cn @ ''/image/upload/'' @ r) = Some g"
    using g by (simp add: upload_search_skip [OF cn])
  ultimately show ?thesis
    by simp
qed

text \<open>
  Where the extraction does invert the builder: an identifier of one segment (not empty,
  no \<^verbatim>\<open>/\<close>, no line terminator), under a cloud name without \<^verbatim>\<open>/\<close>, for every
  transform spec.
\<close>

lemma single_segment_round_trip:
  assumes config: "getCloudinaryConfig e = Some config"
    and cn: "CHR ''/'' \<notin> set (cloudName config)"
    and id: "CHR ''/'' \<notin> set publicId" "dot_plus_end publicId"
  shows "\<exists>u. buildCloudinaryUrl e publicId options = Inr u
     \<and> getPublicIdFromCloudinaryUrl u = Some publicId"
proof -
  let ?ts = "transformations options"
  let ?tr = "if length ?ts > 0 then join ?ts '','' @ ''/'' else []"
  have clean: "cleanPublicId publicId = publicId"
    using id(1) by (cases publicId) (auto simp: cleanPublicId_def startsWith_def)
  have last: "segments_then_group publicId = Some publicId"
    using id by (rule segments_then_group_last)
  have "segments_then_group (?tr @ publicId) = Some publicId"
  proof (cases "?ts = []")
    case True
    with last show ?thesis by simp
  next
    case False
    then have "CHR ''/'' \<notin> set (join ?ts '','') \<and> join ?ts '','' \<noteq> []"
      using token_no_slash [of _ options] by (intro join_no_slash) simp_all
    then have "segments_then_group (join ?ts '','' @ CHR ''/'' # publicId) = Some publicId"
      using last segments_then_group_step [of "join ?ts '',''" publicId publicId] by simp
    with False show ?thesis by simp
  qed
  from upload_search_url [OF cn this] config clean show ?thesis
    by (simp add: buildCloudinaryUrl_def getPublicIdFromCloudinaryUrl_def Let_def)
qed

text \<open>
  C1. The URL built for the identifier \<^verbatim>\<open>galleries/trip/a.jpg\<close> does not give the
  identifier back: the greedy \<^verbatim>\<open>(?:[^/]+\/)*\<close> also consumes the folder segments, and
  the extraction returns the file name alone.
\<close>

theorem getPublicIdFromCloudinaryUrl_drops_folders:
  "buildCloudinaryUrl demo_env ''galleries/trip/a.jpg'' no_options
     = Inr ''https://res.cloudinary.com/demo/image/upload/galleries/trip/a.jpg''
   \<and> getPublicIdFromCloudinaryUrl ''https://res.cloudinary.com/demo/image/upload/galleries/trip/a.jpg''
     = Some ''a.jpg''"
  by code_simp

end
